theory Spec2Isabelle
  imports Main "HOL-Library.Char_ord" "HOL-Library.List_Lexorder" "HOL-Library.Multiset"
begin

section \<open>The MatchingEnums validation rule of federation-js\<close>

text \<open>
  A shallow embedding of \<^verbatim>\<open>src/federation-js/src/composition/validate/sdl/matchingEnums.ts\<close>.
  The rule receives the type definitions of one composition run, groups them by type
  name in a plain JavaScript object, and reports an error for every name whose
  definitions disagree. JavaScript strings are modelled as \<^typ>\<open>string\<close>, arrays as
  lists, \<^verbatim>\<open>undefined\<close>/\<^verbatim>\<open>null\<close> as \<^const>\<open>None\<close>, a thrown exception as a value of
  type \<open>error\<close>, and the errors handed to \<^verbatim>\<open>context.reportError\<close> as the list of
  reported faults, in the order of the calls.
\<close>

subsection \<open>AST nodes\<close>

text \<open>The \<^verbatim>\<open>kind\<close> discriminators of the members of \<^verbatim>\<open>TypeDefinitionNode\<close>.\<close>

datatype Kind =
    SCALAR_TYPE_DEFINITION
  | OBJECT_TYPE_DEFINITION
  | INTERFACE_TYPE_DEFINITION
  | UNION_TYPE_DEFINITION
  | ENUM_TYPE_DEFINITION
  | INPUT_OBJECT_TYPE_DEFINITION

text \<open>Of an \<^verbatim>\<open>EnumValueDefinitionNode\<close> the rule reads \<^verbatim>\<open>name.value\<close> only.\<close>

datatype EnumValueDefinitionNode = EnumValueDefinitionNode (name_value: string)

text \<open>
  A type definition: \<^verbatim>\<open>kind\<close>, \<^verbatim>\<open>name.value\<close>, the optional \<^verbatim>\<open>serviceName\<close> that
  federation attaches to a node, and the optional \<^verbatim>\<open>values\<close> of an enum definition
  (the field \<open>values'\<close>, as \<open>values\<close> is a keyword; it is read only on the branch where
  every definition is an enum).
\<close>

record TypeDefinitionNode =
  kind :: Kind
  name :: string
  serviceName :: "string option"
  values' :: "EnumValueDefinitionNode list option"

text \<open>Line 13.\<close>

definition isEnumDefinition :: "TypeDefinitionNode \<Rightarrow> bool" where
  "isEnumDefinition node = (kind node = ENUM_TYPE_DEFINITION)"

subsection \<open>JavaScript objects used as dictionaries\<close>

datatype error = TypeError

text \<open>
  Both dictionaries of the rule (\<^verbatim>\<open>definitionsByName\<close>, \<^verbatim>\<open>matchingEnumGroups\<close>) are
  object literals \<^verbatim>\<open>{}\<close>. Such an object is modelled by its own properties in creation
  order; its prototype is \<^verbatim>\<open>Object.prototype\<close>, whose property names follow.
\<close>

type_synonym 'v object = "(string \<times> 'v) list"

definition objectPrototypeKeys :: "string list" where
  "objectPrototypeKeys =
    [''constructor'', ''__defineGetter__'', ''__defineSetter__'', ''hasOwnProperty'',
     ''__lookupGetter__'', ''__lookupSetter__'', ''isPrototypeOf'',
     ''propertyIsEnumerable'', ''toString'', ''valueOf'', ''__proto__'',
     ''toLocaleString'']"

text \<open>
  The statement that fills both dictionaries (lines 31--35 and 78--82):
  \<^verbatim>\<open>if (obj[key]) { obj[key].push(x) } else { obj[key] = [x] }\<close>.
  An own property holds an array, which is truthy, and gets the element pushed.
  Failing that, \<^verbatim>\<open>obj[key]\<close> reads the prototype: every property of
  \<^verbatim>\<open>Object.prototype\<close> is a truthy value without a \<^verbatim>\<open>push\<close> method, so the call
  throws a \<^verbatim>\<open>TypeError\<close>. Otherwise the read is \<^verbatim>\<open>undefined\<close> and the property is
  created.
\<close>

fun pushOwn :: "'v list object \<Rightarrow> string \<Rightarrow> 'v \<Rightarrow> 'v list object" where
  "pushOwn [] key x = []"
| "pushOwn ((k, arr) # obj) key x =
     (if k = key then (k, arr @ [x]) # obj else (k, arr) # pushOwn obj key x)"

definition pushOrCreate :: "'v list object \<Rightarrow> string \<Rightarrow> 'v \<Rightarrow> error + 'v list object" where
  "pushOrCreate obj key x =
     (if key \<in> set (map fst obj) then Inr (pushOwn obj key x)
      else if key \<in> set objectPrototypeKeys then Inl TypeError
      else Inr (obj @ [(key, [x])]))"

text \<open>
  \<^verbatim>\<open>Object.keys\<close>, \<^verbatim>\<open>Object.values\<close> and \<^verbatim>\<open>Object.entries\<close> list the own properties
  whose key is an array index (the canonical decimal numeral of a number below
  \<open>2\<^sup>3\<^sup>2 - 1\<close>) first, in ascending numeric order, and then the other keys in creation
  order.
\<close>

definition isDigit :: "char \<Rightarrow> bool" where
  "isDigit c = (CHR ''0'' \<le> c \<and> c \<le> CHR ''9'')"

definition digitsValue :: "string \<Rightarrow> int" where
  "digitsValue s = foldl (\<lambda>n c. 10 * n + (of_char c - 48)) 0 s"

definition arrayIndex :: "string \<Rightarrow> int option" where
  "arrayIndex s =
     (if s \<noteq> [] \<and> list_all isDigit s \<and> (length s = 1 \<or> hd s \<noteq> CHR ''0'')
         \<and> digitsValue s < 4294967295
      then Some (digitsValue s) else None)"

definition indexOrZero :: "string \<Rightarrow> int" where
  "indexOrZero s = (case arrayIndex s of Some n \<Rightarrow> n | None \<Rightarrow> 0)"

definition objectEntries :: "'v object \<Rightarrow> (string \<times> 'v) list" where
  "objectEntries obj =
     sort_key (\<lambda>e. indexOrZero (fst e)) (filter (\<lambda>e. arrayIndex (fst e) \<noteq> None) obj)
     @ filter (\<lambda>e. arrayIndex (fst e) = None) obj"

definition objectKeys :: "'v object \<Rightarrow> string list" where
  "objectKeys obj = map fst (objectEntries obj)"

definition objectValues :: "'v object \<Rightarrow> 'v list" where
  "objectValues obj = map snd (objectEntries obj)"

text \<open>\<^verbatim>\<open>Array.prototype.join\<close> on an array of strings.\<close>

fun join :: "string \<Rightarrow> string list \<Rightarrow> string" where
  "join sep [] = []"
| "join sep [x] = x"
| "join sep (x # y # ys) = x @ sep @ join sep (y # ys)"

subsection \<open>Grouping the definitions by name (lines 26--39)\<close>

fun reduceByName ::
  "TypeDefinitionNode list object \<Rightarrow> TypeDefinitionNode list
     \<Rightarrow> error + TypeDefinitionNode list object" where
  "reduceByName typeToDefinitionsMap [] = Inr typeToDefinitionsMap"
| "reduceByName typeToDefinitionsMap (node # nodes) =
     (case pushOrCreate typeToDefinitionsMap (name node) node of
        Inl e \<Rightarrow> Inl e
      | Inr m \<Rightarrow> reduceByName m nodes)"

definition definitionsByName ::
  "TypeDefinitionNode list \<Rightarrow> error + TypeDefinitionNode list object" where
  "definitionsByName definitions = reduceByName [] definitions"

subsection \<open>The branch where every definition is an enum (lines 45--100)\<close>

text \<open>An element of \<^verbatim>\<open>simpleEnumDefs\<close>: \<^verbatim>\<open>{ serviceName, values, nodes }\<close>.\<close>

record SimpleEnumDef =
  def_serviceName :: string
  def_values :: "string list"
  def_nodes :: "EnumValueDefinitionNode list"

text \<open>An element of a group of \<^verbatim>\<open>matchingEnumGroups\<close>: \<^verbatim>\<open>{ serviceName, nodes }\<close>.\<close>

record ServiceWithNodes =
  svc_serviceName :: string
  svc_nodes :: "EnumValueDefinitionNode list"

text \<open>
  Lines 51--63. The guard \<^verbatim>\<open>serviceName && values\<close> holds for a service name that is
  present and not the empty string, and for any array of values.
\<close>

fun simpleEnumDefs :: "TypeDefinitionNode list \<Rightarrow> SimpleEnumDef list" where
  "simpleEnumDefs [] = []"
| "simpleEnumDefs (d # ds) =
     (case (serviceName d, values' d) of
        (Some s, Some vs) \<Rightarrow>
          (if s \<noteq> [] then
             \<lparr>def_serviceName = s, def_values = map name_value vs, def_nodes = vs\<rparr>
               # simpleEnumDefs ds
           else simpleEnumDefs ds)
      | _ \<Rightarrow> simpleEnumDefs ds)"

text \<open>
  Lines 66--68: \<^verbatim>\<open>Array.prototype.sort\<close> without a comparator orders strings by their
  code units, the lexicographic order of \<^typ>\<open>string\<close>.
\<close>

definition sortValues :: "SimpleEnumDef list \<Rightarrow> SimpleEnumDef list" where
  "sortValues defs = map (\<lambda>definition. definition\<lparr>def_values := sort (def_values definition)\<rparr>) defs"

text \<open>Line 76: \<^verbatim>\<open>join()\<close> separates by a comma.\<close>

definition signatureKey :: "SimpleEnumDef \<Rightarrow> string" where
  "signatureKey definition = join '','' (def_values definition)"

text \<open>Lines 75--83.\<close>

fun buildMatchingEnumGroups ::
  "ServiceWithNodes list object \<Rightarrow> SimpleEnumDef list \<Rightarrow> error + ServiceWithNodes list object" where
  "buildMatchingEnumGroups matchingEnumGroups [] = Inr matchingEnumGroups"
| "buildMatchingEnumGroups matchingEnumGroups (definition # defs) =
     (case pushOrCreate matchingEnumGroups (signatureKey definition)
             \<lparr>svc_serviceName = def_serviceName definition, svc_nodes = def_nodes definition\<rparr> of
        Inl e \<Rightarrow> Inl e
      | Inr groups \<Rightarrow> buildMatchingEnumGroups groups defs)"

definition matchingEnumGroups ::
  "TypeDefinitionNode list \<Rightarrow> error + ServiceWithNodes list object" where
  "matchingEnumGroups definitions =
     buildMatchingEnumGroups [] (sortValues (simpleEnumDefs definitions))"

text \<open>
  Modelled from the spec: \<^verbatim>\<open>errorWithCode\<close> and the type
  \<^verbatim>\<open>ImpactedServicesCompositionError\<close> are imported from outside this file. A
  reported fault is the triple of arguments of the call: the code, the
  \<^verbatim>\<open>impactedServices\<close> object and the message. The spec describes \<^verbatim>\<open>impactedServices\<close>
  as the service identifiers it references, so the field is the list of its keys, and
  the object literal \<^verbatim>\<open>{}\<close> of lines 86 and 102 is \<open>[]\<close>.
\<close>

record Fault =
  code :: string
  impactedServices :: "string list"
  message :: string

text \<open>
  Lines 93--97. The elements joined at line 96 are the objects
  \<^verbatim>\<open>{ serviceName, nodes }\<close>; \<^verbatim>\<open>join\<close> converts each with \<^verbatim>\<open>ToString\<close>.
\<close>

definition toString :: "ServiceWithNodes \<Rightarrow> string" where
  "toString obj = ''[object Object]''"

definition enumMismatchMessage :: "string \<Rightarrow> ServiceWithNodes list object \<Rightarrow> string" where
  "enumMismatchMessage nm groups =
     ''The `'' @ nm @ ''` enum does not have identical values in all services. Groups of services with identical values are: ''
       @ join '', '' (map (\<lambda>serviceNames. ''['' @ join '', '' (map toString serviceNames) @ '']'')
                       (objectValues groups))"

definition checkEnumValues :: "string \<Rightarrow> TypeDefinitionNode list \<Rightarrow> error + Fault list" where
  "checkEnumValues nm definitions =
     (case matchingEnumGroups definitions of
        Inl e \<Rightarrow> Inl e
      | Inr groups \<Rightarrow>
          if length (objectKeys groups) > 1
          then Inr [\<lparr>code = ''ENUM_MISMATCH'', impactedServices = [],
                     message = enumMismatchMessage nm groups\<rparr>]
          else Inr [])"

subsection \<open>The branch where only some definitions are enums (lines 101--127)\<close>

text \<open>\<^verbatim>\<open>.filter(isString)\<close> keeps the service names that are present.\<close>

definition filterIsString :: "string option list \<Rightarrow> string list" where
  "filterIsString xs = concat (map (\<lambda>x. case x of Some s \<Rightarrow> [s] | None \<Rightarrow> []) xs)"

definition servicesWithEnum :: "TypeDefinitionNode list \<Rightarrow> string list" where
  "servicesWithEnum definitions =
     filterIsString (map serviceName (filter isEnumDefinition definitions))"

definition servicesWithoutEnum :: "TypeDefinitionNode list \<Rightarrow> string list" where
  "servicesWithoutEnum definitions =
     filterIsString (map serviceName (filter (\<lambda>d. \<not> isEnumDefinition d) definitions))"

text \<open>\<^verbatim>\<open>servicesWithEnum[0]\<close>: the first element, \<^verbatim>\<open>undefined\<close> on an empty array.\<close>

definition firstElement :: "string list \<Rightarrow> string option" where
  "firstElement xs = (case xs of [] \<Rightarrow> None | x # _ \<Rightarrow> Some x)"

text \<open>
  \<^verbatim>\<open>logServiceAndType\<close> is imported from \<^verbatim>\<open>../../utils\<close>; it is a parameter of the
  model, applied to the possibly undefined service name and the type name.
\<close>

definition enumMismatchTypeFault ::
  "(string option \<Rightarrow> string \<Rightarrow> string) \<Rightarrow> string \<Rightarrow> TypeDefinitionNode list \<Rightarrow> Fault" where
  "enumMismatchTypeFault logServiceAndType nm definitions =
     \<lparr>code = ''ENUM_MISMATCH_TYPE'', impactedServices = [],
      message = logServiceAndType (firstElement (servicesWithEnum definitions)) nm
        @ nm @ '' is an enum in ['' @ join '', '' (servicesWithEnum definitions)
        @ ''], but not in ['' @ join '', '' (servicesWithoutEnum definitions) @ '']''\<rparr>"

subsection \<open>The loop over the groups (lines 42--128) and the rule\<close>

text \<open>The loop body: the faults one group reports, or the exception it throws.\<close>

definition checkGroup ::
  "(string option \<Rightarrow> string \<Rightarrow> string) \<Rightarrow> string \<Rightarrow> TypeDefinitionNode list
     \<Rightarrow> error + Fault list" where
  "checkGroup logServiceAndType nm definitions =
     (if list_all isEnumDefinition definitions then checkEnumValues nm definitions
      else if list_ex isEnumDefinition definitions
        then Inr [enumMismatchTypeFault logServiceAndType nm definitions]
      else Inr [])"

text \<open>
  The loop threads the errors reported so far; an exception leaves the loop with the
  reports made before it.
\<close>

fun forEachGroup ::
  "(string option \<Rightarrow> string \<Rightarrow> string) \<Rightarrow> (string \<times> TypeDefinitionNode list) list
     \<Rightarrow> Fault list \<Rightarrow> Fault list \<times> error option" where
  "forEachGroup logServiceAndType [] reported = (reported, None)"
| "forEachGroup logServiceAndType ((nm, definitions) # groups) reported =
     (case checkGroup logServiceAndType nm definitions of
        Inl e \<Rightarrow> (reported, Some e)
      | Inr faults \<Rightarrow> forEachGroup logServiceAndType groups (reported @ faults))"

definition MatchingEnums ::
  "(string option \<Rightarrow> string \<Rightarrow> string) \<Rightarrow> TypeDefinitionNode list
     \<Rightarrow> Fault list \<times> error option" where
  "MatchingEnums logServiceAndType definitions =
     (case definitionsByName definitions of
        Inl e \<Rightarrow> ([], Some e)
      | Inr byName \<Rightarrow> forEachGroup logServiceAndType (objectEntries byName) [])"

subsection \<open>Auxiliary definitions for the proofs\<close>

text \<open>
  Both dictionaries are filled by running \<^const>\<open>pushOrCreate\<close> over a list of keys and
  elements; \<open>pushAll\<close> is that loop, and \<^const>\<open>reduceByName\<close> and
  \<^const>\<open>buildMatchingEnumGroups\<close> are shown to be instances of it.
\<close>

fun pushAll :: "'v list object \<Rightarrow> (string \<times> 'v) list \<Rightarrow> error + 'v list object" where
  "pushAll obj [] = Inr obj"
| "pushAll obj ((key, x) # kvs) =
     (case pushOrCreate obj key x of Inl e \<Rightarrow> Inl e | Inr obj' \<Rightarrow> pushAll obj' kvs)"

text \<open>The keys computed at line 76 for the elements of \<^verbatim>\<open>simpleEnumDefs\<close>, in order.\<close>

definition enumSignatures :: "TypeDefinitionNode list \<Rightarrow> string list" where
  "enumSignatures definitions = map signatureKey (sortValues (simpleEnumDefs definitions))"

text \<open>The guard of line 55 as a predicate on a definition.\<close>

definition hasServiceAndValues :: "TypeDefinitionNode \<Rightarrow> bool" where
  "hasServiceAndValues d =
     (case (serviceName d, values' d) of (Some s, Some vs) \<Rightarrow> s \<noteq> [] | _ \<Rightarrow> False)"

section \<open>Properties of the dictionaries\<close>

lemma pushOwn_keys: "map fst (pushOwn obj key x) = map fst obj"
  by (induction obj key x rule: pushOwn.induct) auto

lemma pushOwn_elements:
  "key \<in> set (map fst obj) \<Longrightarrow>
     mset (concat (map snd (pushOwn obj key x))) = add_mset x (mset (concat (map snd obj)))"
  by (induction obj key x rule: pushOwn.induct) auto

lemma pushOrCreate_keys:
  "pushOrCreate obj key x = Inr obj' \<Longrightarrow>
     map fst obj' = (if key \<in> set (map fst obj) then map fst obj else map fst obj @ [key])"
  by (auto simp: pushOrCreate_def pushOwn_keys split: if_splits)

lemma pushOrCreate_elements:
  "pushOrCreate obj key x = Inr obj' \<Longrightarrow>
     mset (concat (map snd obj')) = add_mset x (mset (concat (map snd obj)))"
  using pushOwn_elements [of key obj x]
  by (auto simp: pushOrCreate_def split: if_splits)

lemma pushOrCreate_throws:
  "pushOrCreate obj key x = Inl e \<longleftrightarrow>
     e = TypeError \<and> key \<in> set objectPrototypeKeys \<and> key \<notin> set (map fst obj)"
  by (cases e) (auto simp: pushOrCreate_def)

lemma pushAll_keys_set:
  "pushAll obj kvs = Inr obj' \<Longrightarrow> set (map fst obj') = set (map fst obj) \<union> set (map fst kvs)"
proof (induction kvs arbitrary: obj)
  case Nil
  then show ?case by simp
next
  case (Cons kv kvs)
  obtain key x where kv: "kv = (key, x)" by (cases kv)
  from Cons.prems kv obtain mid where
    mid: "pushOrCreate obj key x = Inr mid" and rest: "pushAll mid kvs = Inr obj'"
    by (auto split: sum.splits)
  have "set (map fst mid) = insert key (set (map fst obj))"
    using pushOrCreate_keys [OF mid] by (auto split: if_splits)
  with Cons.IH [OF rest] kv show ?case by auto
qed

lemma pushAll_keys_distinct:
  "pushAll obj kvs = Inr obj' \<Longrightarrow> distinct (map fst obj) \<Longrightarrow> distinct (map fst obj')"
proof (induction kvs arbitrary: obj)
  case Nil
  then show ?case by simp
next
  case (Cons kv kvs)
  obtain key x where kv: "kv = (key, x)" by (cases kv)
  from Cons.prems(1) kv obtain mid where
    mid: "pushOrCreate obj key x = Inr mid" and rest: "pushAll mid kvs = Inr obj'"
    by (auto split: sum.splits)
  have "distinct (map fst mid)"
    using pushOrCreate_keys [OF mid] Cons.prems(2) by (auto split: if_splits)
  with Cons.IH [OF rest] show ?case by simp
qed

lemma pushAll_elements:
  "pushAll obj kvs = Inr obj' \<Longrightarrow>
     mset (concat (map snd obj')) = mset (concat (map snd obj)) + mset (map snd kvs)"
proof (induction kvs arbitrary: obj)
  case Nil
  then show ?case by simp
next
  case (Cons kv kvs)
  obtain key x where kv: "kv = (key, x)" by (cases kv)
  from Cons.prems kv obtain mid where
    mid: "pushOrCreate obj key x = Inr mid" and rest: "pushAll mid kvs = Inr obj'"
    by (auto split: sum.splits)
  show ?case
    using Cons.IH [OF rest] pushOrCreate_elements [OF mid] kv by simp
qed

lemma pushAll_throws:
  "pushAll obj kvs = Inl e \<longleftrightarrow>
     e = TypeError \<and> (\<exists>key \<in> set (map fst kvs). key \<in> set objectPrototypeKeys \<and> key \<notin> set (map fst obj))"
proof (induction kvs arbitrary: obj)
  case Nil
  then show ?case by simp
next
  case (Cons kv kvs)
  obtain key x where kv: "kv = (key, x)" by (cases kv)
  show ?case
  proof (cases "pushOrCreate obj key x")
    case (Inl e')
    then have "e' = TypeError" "key \<in> set objectPrototypeKeys" "key \<notin> set (map fst obj)"
      using pushOrCreate_throws [of obj key x e'] by auto
    with Inl kv show ?thesis by (cases e) auto
  next
    case (Inr mid)
    have keys: "set (map fst mid) = insert key (set (map fst obj))"
      using pushOrCreate_keys [OF Inr] by (auto split: if_splits)
    have ok: "key \<in> set objectPrototypeKeys \<Longrightarrow> key \<in> set (map fst obj)"
      using Inr by (auto simp: pushOrCreate_def split: if_splits)
    show ?thesis
      using Inr kv Cons.IH [of mid] keys ok by auto
  qed
qed

lemma objectEntries_mset: "mset (objectEntries obj) = mset obj"
  by (simp add: objectEntries_def)

lemma objectKeys_length: "length (objectKeys obj) = length obj"
  using arg_cong [OF objectEntries_mset, of size obj] by (simp add: objectKeys_def)

lemma objectValues_set: "set (objectValues obj) = set (map snd obj)"
  using arg_cong [OF objectEntries_mset, of set_mset obj] by (simp add: objectValues_def)

lemma objectValues_mset: "mset (objectValues obj) = mset (map snd obj)"
  using arg_cong [OF objectEntries_mset, of "image_mset snd" obj] by (simp add: objectValues_def)

lemma reduceByName_pushAll:
  "reduceByName m nodes = pushAll m (map (\<lambda>node. (name node, node)) nodes)"
  by (induction nodes arbitrary: m) (auto split: sum.splits)

lemma buildMatchingEnumGroups_pushAll:
  "buildMatchingEnumGroups g defs =
     pushAll g (map (\<lambda>d. (signatureKey d,
        \<lparr>svc_serviceName = def_serviceName d, svc_nodes = def_nodes d\<rparr>)) defs)"
  by (induction defs arbitrary: g) (auto split: sum.splits)

lemma pushOwn_map_of:
  "map_of (pushOwn obj key x) k =
     (if k = key then map_option (\<lambda>arr. arr @ [x]) (map_of obj k) else map_of obj k)"
  by (induction obj key x rule: pushOwn.induct) auto

lemma pushOrCreate_map_of:
  assumes "pushOrCreate obj key x = Inr obj'"
  shows "map_of obj' k =
     (if k = key then Some ((case map_of obj k of Some arr \<Rightarrow> arr | None \<Rightarrow> []) @ [x])
      else map_of obj k)"
proof (cases "key \<in> set (map fst obj)")
  case True
  then obtain arr where "map_of obj key = Some arr"
    by (metis map_of_eq_None_iff not_Some_eq set_map)
  with True assms show ?thesis
    by (auto simp: pushOrCreate_def pushOwn_map_of)
next
  case False
  then have "map_of obj key = None"
    by (simp add: map_of_eq_None_iff)
  with False assms show ?thesis
    by (auto simp: pushOrCreate_def map_add_def split: if_splits option.splits)
qed

lemma pushAll_map_of:
  "pushAll obj kvs = Inr obj' \<Longrightarrow>
     (case map_of obj' k of Some arr \<Rightarrow> arr | None \<Rightarrow> []) =
       (case map_of obj k of Some arr \<Rightarrow> arr | None \<Rightarrow> [])
         @ map snd (filter (\<lambda>kv. fst kv = k) kvs)"
proof (induction kvs arbitrary: obj)
  case Nil
  then show ?case by simp
next
  case (Cons kv kvs)
  obtain key x where kv: "kv = (key, x)" by (cases kv)
  from Cons.prems kv obtain mid where
    mid: "pushOrCreate obj key x = Inr mid" and rest: "pushAll mid kvs = Inr obj'"
    by (auto split: sum.splits)
  show ?case
    using Cons.IH [OF rest] pushOrCreate_map_of [OF mid, of k] kv by simp
qed

lemma pushAll_entry:
  assumes "pushAll [] kvs = Inr obj'" and "(k, arr) \<in> set obj'"
  shows "arr = map snd (filter (\<lambda>kv. fst kv = k) kvs)"
proof -
  have "distinct (map fst obj')"
    using pushAll_keys_distinct [OF assms(1)] by simp
  with assms(2) have "map_of obj' k = Some arr"
    by simp
  with pushAll_map_of [OF assms(1), of k] show ?thesis
    by simp
qed

section \<open>Properties of the grouping by name\<close>

lemma definitionsByName_throws:
  "definitionsByName defs = Inl e \<longleftrightarrow>
     e = TypeError \<and> (\<exists>d \<in> set defs. name d \<in> set objectPrototypeKeys)"
  using pushAll_throws [of "[]" "map (\<lambda>node. (name node, node)) defs" e]
  by (simp add: definitionsByName_def reduceByName_pushAll comp_def)

lemma definitionsByName_groups:
  assumes "definitionsByName defs = Inr byName"
  shows "distinct (map fst byName)"
    and "set (map fst byName) = set (map name defs)"
    and "(nm, ds) \<in> set byName \<Longrightarrow> ds = filter (\<lambda>d. name d = nm) defs"
proof -
  let ?kvs = "map (\<lambda>node. (name node, node)) defs"
  have run: "pushAll [] ?kvs = Inr byName"
    using assms by (simp add: definitionsByName_def reduceByName_pushAll)
  show "distinct (map fst byName)"
    using pushAll_keys_distinct [OF run] by simp
  show "set (map fst byName) = set (map name defs)"
    using pushAll_keys_set [OF run] by (simp add: comp_def)
  show "ds = filter (\<lambda>d. name d = nm) defs" if "(nm, ds) \<in> set byName"
    using pushAll_entry [OF run that] by (simp add: filter_map comp_def)
qed

lemma definitionsByName_empty: "definitionsByName [] = Inr []"
  by (simp add: definitionsByName_def)

section \<open>Properties of the branch for enums\<close>

lemma simpleEnumDefs_append:
  "simpleEnumDefs (xs @ ys) = simpleEnumDefs xs @ simpleEnumDefs ys"
  by (induction xs) (auto split: option.splits)

lemma simpleEnumDefs_skips:
  "\<not> hasServiceAndValues d \<Longrightarrow> simpleEnumDefs (d # ds) = simpleEnumDefs ds"
  by (auto simp: hasServiceAndValues_def split: option.splits)

lemma simpleEnumDefs_services:
  "map def_serviceName (simpleEnumDefs defs) =
     filterIsString (map serviceName (filter hasServiceAndValues defs))"
  by (induction defs) (auto simp: hasServiceAndValues_def filterIsString_def split: option.splits)

lemma sortValues_services:
  "map def_serviceName (sortValues defs) = map def_serviceName defs"
  by (simp add: sortValues_def)

lemma matchingEnumGroups_keys:
  assumes "matchingEnumGroups defs = Inr groups"
  shows "distinct (map fst groups)" and "set (map fst groups) = set (enumSignatures defs)"
proof -
  let ?kvs = "map (\<lambda>d. (signatureKey d,
      \<lparr>svc_serviceName = def_serviceName d, svc_nodes = def_nodes d\<rparr>))
      (sortValues (simpleEnumDefs defs))"
  have run: "pushAll [] ?kvs = Inr groups"
    using assms by (simp add: matchingEnumGroups_def buildMatchingEnumGroups_pushAll)
  show "distinct (map fst groups)"
    using pushAll_keys_distinct [OF run] by simp
  show "set (map fst groups) = set (enumSignatures defs)"
    using pushAll_keys_set [OF run] by (simp add: enumSignatures_def comp_def)
qed

lemma matchingEnumGroups_services:
  assumes "matchingEnumGroups defs = Inr groups"
  shows "mset (map svc_serviceName (concat (map snd groups))) =
           mset (filterIsString (map serviceName (filter hasServiceAndValues defs)))"
proof -
  let ?kvs = "map (\<lambda>d. (signatureKey d,
      \<lparr>svc_serviceName = def_serviceName d, svc_nodes = def_nodes d\<rparr>))
      (sortValues (simpleEnumDefs defs))"
  have run: "pushAll [] ?kvs = Inr groups"
    using assms by (simp add: matchingEnumGroups_def buildMatchingEnumGroups_pushAll)
  have elems: "mset (concat (map snd groups)) = mset (map snd ?kvs)"
    using pushAll_elements [OF run] by simp
  have names: "map svc_serviceName (map snd ?kvs)
      = map def_serviceName (sortValues (simpleEnumDefs defs))"
    by (simp add: comp_def)
  have "mset (map svc_serviceName (concat (map snd groups)))
      = mset (map svc_serviceName (map snd ?kvs))"
    using arg_cong [OF elems, of "image_mset svc_serviceName"]
    by (simp add: multiset.map_comp)
  then show ?thesis
    by (simp only: names sortValues_services simpleEnumDefs_services)
qed

lemma matchingEnumGroups_throws:
  "matchingEnumGroups defs = Inl e \<longleftrightarrow>
     e = TypeError \<and> (\<exists>key \<in> set (enumSignatures defs). key \<in> set objectPrototypeKeys)"
proof -
  let ?kvs = "map (\<lambda>d. (signatureKey d,
      \<lparr>svc_serviceName = def_serviceName d, svc_nodes = def_nodes d\<rparr>))
      (sortValues (simpleEnumDefs defs))"
  have keys: "map fst ?kvs = enumSignatures defs"
    by (simp add: enumSignatures_def comp_def)
  have "matchingEnumGroups defs = pushAll [] ?kvs"
    by (simp add: matchingEnumGroups_def buildMatchingEnumGroups_pushAll)
  then show ?thesis
    using pushAll_throws [of "[]" ?kvs e] unfolding keys by simp
qed

lemma matchingEnumGroups_count:
  assumes "matchingEnumGroups defs = Inr groups"
  shows "length (objectKeys groups) = card (set (enumSignatures defs))"
proof -
  have "length (objectKeys groups) = length (map fst groups)"
    by (simp add: objectKeys_length)
  also have "\<dots> = card (set (map fst groups))"
    using matchingEnumGroups_keys(1) [OF assms] distinct_card [of "map fst groups"] by simp
  finally show ?thesis
    using matchingEnumGroups_keys(2) [OF assms] by simp
qed

lemma checkEnumValues_throws:
  "checkEnumValues nm defs = Inl e \<longleftrightarrow>
     e = TypeError \<and> (\<exists>key \<in> set (enumSignatures defs). key \<in> set objectPrototypeKeys)"
  using matchingEnumGroups_throws [of defs e]
  by (auto simp: checkEnumValues_def split: sum.splits)

lemma checkEnumValues_returns:
  assumes "checkEnumValues nm defs = Inr faults"
  shows "\<exists>groups. matchingEnumGroups defs = Inr groups \<and>
           faults = (if 1 < card (set (enumSignatures defs))
                     then [\<lparr>code = ''ENUM_MISMATCH'', impactedServices = [],
                            message = enumMismatchMessage nm groups\<rparr>]
                     else [])"
proof (cases "matchingEnumGroups defs")
  case (Inl e)
  with assms show ?thesis by (simp add: checkEnumValues_def)
next
  case (Inr groups)
  with assms matchingEnumGroups_count [OF Inr] show ?thesis
    by (auto simp: checkEnumValues_def split: if_splits)
qed

lemma signature_of_values:
  "hasServiceAndValues d \<Longrightarrow> values' d = Some vs \<Longrightarrow>
     enumSignatures [d] = [join '','' (sort (map name_value vs))]"
  by (auto simp: hasServiceAndValues_def enumSignatures_def sortValues_def signatureKey_def
      split: option.splits)

lemma enumSignatures_map:
  "enumSignatures defs =
     map (\<lambda>d. join '','' (sort (map name_value (the (values' d)))))
       (filter hasServiceAndValues defs)"
proof (induction defs)
  case Nil
  then show ?case by (simp add: enumSignatures_def sortValues_def)
next
  case (Cons d ds)
  have split: "enumSignatures (d # ds) = enumSignatures [d] @ enumSignatures ds"
    using simpleEnumDefs_append [of "[d]" ds]
    by (simp add: enumSignatures_def sortValues_def del: simpleEnumDefs.simps(2))
  show ?case
  proof (cases "hasServiceAndValues d")
    case False
    then have "enumSignatures [d] = []"
      using simpleEnumDefs_skips [of d "[]"]
      by (simp add: enumSignatures_def sortValues_def del: simpleEnumDefs.simps(2))
    with split Cons False show ?thesis by simp
  next
    case True
    then obtain vs where vs: "values' d = Some vs"
      by (auto simp: hasServiceAndValues_def split: option.splits)
    from signature_of_values [OF True vs] split Cons True vs show ?thesis
      by simp
  qed
qed

lemma sort_permutation: "mset xs = mset ys \<Longrightarrow> sort xs = sort (ys :: string list)"
  by (rule properties_for_sort) simp_all

lemma enumSignatures_append:
  "enumSignatures (xs @ ys) = enumSignatures xs @ enumSignatures ys"
  by (simp add: enumSignatures_map)

lemma servicesWithEnum_skips:
  "isEnumDefinition d \<Longrightarrow> serviceName d = None \<Longrightarrow>
     servicesWithEnum (xs @ d # ys) = servicesWithEnum (xs @ ys)"
  by (simp add: servicesWithEnum_def filterIsString_def)

lemma servicesWithoutEnum_skips:
  "isEnumDefinition d \<Longrightarrow> servicesWithoutEnum (xs @ d # ys) = servicesWithoutEnum (xs @ ys)"
  by (simp add: servicesWithoutEnum_def filterIsString_def)

lemma checkEnumValues_skips:
  assumes "\<not> hasServiceAndValues d"
  shows "checkEnumValues nm (xs @ d # ys) = checkEnumValues nm (xs @ ys)"
proof -
  have "simpleEnumDefs (xs @ d # ys) = simpleEnumDefs (xs @ ys)"
    using simpleEnumDefs_skips [OF assms, of ys] simpleEnumDefs_append [of xs "d # ys"]
      simpleEnumDefs_append [of xs ys]
    by simp
  then show ?thesis
    by (simp add: checkEnumValues_def matchingEnumGroups_def)
qed

lemma matchingEnumGroups_origin:
  assumes "matchingEnumGroups defs = Inr groups"
    and "g \<in> set (objectValues groups)" and "e \<in> set g"
  shows "\<exists>d \<in> set defs. serviceName d = Some (svc_serviceName e) \<and> values' d \<noteq> None"
proof -
  have "svc_serviceName e \<in> set (map svc_serviceName (concat (map snd groups)))"
    using assms(2,3) by (auto simp: objectValues_set)
  then have "svc_serviceName e \<in># mset (map svc_serviceName (concat (map snd groups)))"
    by (simp only: set_mset_mset)
  then have "svc_serviceName e
      \<in> set (filterIsString (map serviceName (filter hasServiceAndValues defs)))"
    by (simp only: matchingEnumGroups_services [OF assms(1)] set_mset_mset)
  then obtain d where "d \<in> set defs" "hasServiceAndValues d"
      "serviceName d = Some (svc_serviceName e)"
    by (auto simp: filterIsString_def split: option.splits)
  then show ?thesis
    by (auto simp: hasServiceAndValues_def split: option.splits)
qed

lemma checkGroup_throws:
  "checkGroup logServiceAndType nm defs = Inl e \<longleftrightarrow>
     e = TypeError \<and> list_all isEnumDefinition defs
       \<and> (\<exists>key \<in> set (enumSignatures defs). key \<in> set objectPrototypeKeys)"
  using checkEnumValues_throws [of nm defs e]
  by (auto simp: checkGroup_def)

lemma checkGroup_enum_faults:
  assumes "list_all isEnumDefinition defs"
    and "\<forall>key \<in> set (enumSignatures defs). key \<notin> set objectPrototypeKeys"
  shows "\<exists>groups. matchingEnumGroups defs = Inr groups \<and>
           checkGroup logServiceAndType nm defs =
             Inr (if 2 \<le> card (set (enumSignatures defs))
                  then [\<lparr>code = ''ENUM_MISMATCH'', impactedServices = [],
                         message = enumMismatchMessage nm groups\<rparr>]
                  else [])"
proof (cases "checkEnumValues nm defs")
  case (Inl e)
  with checkEnumValues_throws [of nm defs e] assms(2) show ?thesis by auto
next
  case (Inr faults)
  from checkEnumValues_returns [OF Inr] Inr assms(1) show ?thesis
    by (auto simp: checkGroup_def)
qed

section \<open>Properties of the loop over the groups\<close>

lemma forEachGroup_returns:
  "list_all (\<lambda>(nm, ds). \<exists>faults. checkGroup logServiceAndType nm ds = Inr faults) groups \<Longrightarrow>
     forEachGroup logServiceAndType groups reported =
       (reported @ concat (map (\<lambda>(nm, ds).
          case checkGroup logServiceAndType nm ds of Inr faults \<Rightarrow> faults | Inl e \<Rightarrow> []) groups),
        None)"
  by (induction groups arbitrary: reported) auto

lemma forEachGroup_throws:
  "list_all (\<lambda>(nm, ds). \<exists>faults. checkGroup logServiceAndType nm ds = Inr faults) before \<Longrightarrow>
   checkGroup logServiceAndType nm ds = Inl e \<Longrightarrow>
     forEachGroup logServiceAndType (before @ (nm, ds) # rest) reported =
       (reported @ concat (map (\<lambda>(nm, ds).
          case checkGroup logServiceAndType nm ds of Inr faults \<Rightarrow> faults | Inl e \<Rightarrow> []) before),
        Some e)"
  by (induction before arbitrary: reported) auto

lemma objectEntries_set: "set (objectEntries obj) = set obj"
  using arg_cong [OF objectEntries_mset, of set_mset obj] by simp

lemma forEachGroup_reported:
  "fault \<in> set (fst (forEachGroup logServiceAndType groups reported)) \<Longrightarrow>
     fault \<in> set reported
     \<or> (\<exists>(nm, ds) \<in> set groups. \<exists>faults.
           checkGroup logServiceAndType nm ds = Inr faults \<and> fault \<in> set faults)"
proof (induction groups arbitrary: reported)
  case Nil
  then show ?case by simp
next
  case (Cons g groups)
  obtain nm ds where g: "g = (nm, ds)" by (cases g)
  show ?case
  proof (cases "checkGroup logServiceAndType nm ds")
    case (Inl e)
    with Cons.prems g show ?thesis by simp
  next
    case (Inr faults)
    with Cons.prems g have
      "fault \<in> set (fst (forEachGroup logServiceAndType groups (reported @ faults)))"
      by simp
    from Cons.IH [OF this] Inr g show ?thesis by auto
  qed
qed

lemma MatchingEnums_returns:
  assumes "definitionsByName definitions = Inr byName"
    and "list_all (\<lambda>(nm, ds). \<exists>faults. checkGroup logServiceAndType nm ds = Inr faults)
           (objectEntries byName)"
  shows "MatchingEnums logServiceAndType definitions =
           (concat (map (\<lambda>(nm, ds).
              case checkGroup logServiceAndType nm ds of Inr faults \<Rightarrow> faults | Inl e \<Rightarrow> [])
              (objectEntries byName)), None)"
  using forEachGroup_returns [OF assms(2), of "[]"] assms(1)
  by (simp add: MatchingEnums_def)

lemma MatchingEnums_reported:
  assumes "fault \<in> set (fst (MatchingEnums logServiceAndType definitions))"
  shows "\<exists>nm faults. nm \<in> set (map name definitions)
           \<and> checkGroup logServiceAndType nm (filter (\<lambda>d. name d = nm) definitions) = Inr faults
           \<and> fault \<in> set faults"
proof (cases "definitionsByName definitions")
  case (Inl e)
  with assms show ?thesis by (simp add: MatchingEnums_def)
next
  case (Inr byName)
  with assms have "fault \<in> set (fst (forEachGroup logServiceAndType (objectEntries byName) []))"
    by (simp add: MatchingEnums_def)
  from forEachGroup_reported [OF this] obtain nm ds faults where
    entry: "(nm, ds) \<in> set byName"
    and check: "checkGroup logServiceAndType nm ds = Inr faults" "fault \<in> set faults"
    by (auto simp: objectEntries_set)
  have "ds = filter (\<lambda>d. name d = nm) definitions"
    using definitionsByName_groups(3) [OF Inr entry] .
  moreover have "nm \<in> set (map name definitions)"
    using definitionsByName_groups(2) [OF Inr] entry by force
  ultimately show ?thesis
    using check by blast
qed

lemma checkGroup_mismatch_groups:
  assumes "checkGroup logServiceAndType nm defs = Inr faults"
    and "fault \<in> set faults" and "code fault = ''ENUM_MISMATCH''"
  shows "\<exists>groups. matchingEnumGroups defs = Inr groups
           \<and> fault = \<lparr>code = ''ENUM_MISMATCH'', impactedServices = [],
                       message = enumMismatchMessage nm groups\<rparr>
           \<and> set (map svc_serviceName (concat (objectValues groups)))
             = set (filterIsString (map serviceName (filter hasServiceAndValues defs)))"
proof (cases "list_all isEnumDefinition defs")
  case True
  then have "checkEnumValues nm defs = Inr faults"
    using assms(1) by (simp add: checkGroup_def)
  from checkEnumValues_returns [OF this] obtain groups where
    groups: "matchingEnumGroups defs = Inr groups"
    and faults: "faults = (if 1 < card (set (enumSignatures defs))
        then [\<lparr>code = ''ENUM_MISMATCH'', impactedServices = [],
               message = enumMismatchMessage nm groups\<rparr>]
        else [])"
    by blast
  have fault: "fault = \<lparr>code = ''ENUM_MISMATCH'', impactedServices = [],
      message = enumMismatchMessage nm groups\<rparr>"
    using faults assms(2) by (auto split: if_splits)
  have "set (concat (objectValues groups)) = set (concat (map snd groups))"
    by (simp add: objectValues_set)
  then have "set (map svc_serviceName (concat (objectValues groups)))
      = set (map svc_serviceName (concat (map snd groups)))"
    by simp
  also have "\<dots> = set (filterIsString (map serviceName (filter hasServiceAndValues defs)))"
    using matchingEnumGroups_services [OF groups] by (rule mset_eq_setD)
  finally show ?thesis
    using groups fault by blast
next
  case False
  then have "faults = [] \<or> faults = [enumMismatchTypeFault logServiceAndType nm defs]"
    using assms(1) by (auto simp: checkGroup_def split: if_splits)
  then have "code fault = ''ENUM_MISMATCH_TYPE''"
    using assms(2) by (auto simp: enumMismatchTypeFault_def)
  with assms(3) show ?thesis by simp
qed

section \<open>The enum signature\<close>

text \<open>
  Claim C3. The signature computed for an enum definition does not depend on the order
  of its values: two definitions whose value lists are permutations of each other get
  the same key, the sorted value names joined by commas. A group of enum definitions
  whose value lists are all permutations of one another reports no fault: its check
  returns without a report, unless the common signature is the name of a property of
  \<^verbatim>\<open>Object.prototype\<close>, where it throws, again without a report.
\<close>

theorem signature_ignores_value_order:
  "(hasServiceAndValues d \<and> hasServiceAndValues e \<and> values' d = Some vs \<and> values' e = Some ws
      \<and> mset (map name_value vs) = mset (map name_value ws)
     \<longrightarrow> enumSignatures [d] = [join '','' (sort (map name_value vs))]
       \<and> enumSignatures [e] = enumSignatures [d])
   \<and> (list_all isEnumDefinition defs
      \<and> (\<forall>d \<in> set defs. \<forall>e \<in> set defs. \<forall>vs ws. values' d = Some vs \<and> values' e = Some ws
            \<longrightarrow> mset (map name_value vs) = mset (map name_value ws))
     \<longrightarrow> (checkGroup logServiceAndType nm defs = Inr []
          \<or> checkGroup logServiceAndType nm defs = Inl TypeError)
       \<and> ((\<forall>key \<in> set (enumSignatures defs). key \<notin> set objectPrototypeKeys)
            \<longrightarrow> checkGroup logServiceAndType nm defs = Inr []))"
proof (intro conjI impI)
  assume h: "hasServiceAndValues d \<and> hasServiceAndValues e \<and> values' d = Some vs
      \<and> values' e = Some ws \<and> mset (map name_value vs) = mset (map name_value ws)"
  then have "sort (map name_value vs) = sort (map name_value ws)"
    by (intro sort_permutation) simp
  with h show "enumSignatures [d] = [join '','' (sort (map name_value vs))]"
    and "enumSignatures [e] = enumSignatures [d]"
    by (simp_all add: signature_of_values)
next
  assume h: "list_all isEnumDefinition defs
      \<and> (\<forall>d \<in> set defs. \<forall>e \<in> set defs. \<forall>vs ws. values' d = Some vs \<and> values' e = Some ws
            \<longrightarrow> mset (map name_value vs) = mset (map name_value ws))"
  have same: "x = y" if "x \<in> set (enumSignatures defs)" "y \<in> set (enumSignatures defs)" for x y
  proof -
    from that obtain d e where d: "d \<in> set defs" "hasServiceAndValues d"
        "x = join '','' (sort (map name_value (the (values' d))))"
      and e: "e \<in> set defs" "hasServiceAndValues e"
        "y = join '','' (sort (map name_value (the (values' e))))"
      by (auto simp: enumSignatures_map)
    from d(2) e(2) obtain vs ws where v: "values' d = Some vs" "values' e = Some ws"
      by (auto simp: hasServiceAndValues_def split: option.splits)
    with h d(1) e(1) have "mset (map name_value vs) = mset (map name_value ws)"
      by blast
    then have "sort (map name_value vs) = sort (map name_value ws)"
      by (rule sort_permutation)
    with d(3) e(3) v show ?thesis by simp
  qed
  have few: "card (set (enumSignatures defs)) \<le> 1"
  proof (cases "set (enumSignatures defs) = {}")
    case True
    then show ?thesis by simp
  next
    case False
    then obtain x where "x \<in> set (enumSignatures defs)"
      by (cases "enumSignatures defs") auto
    with same have "set (enumSignatures defs) = {x}" by auto
    then show ?thesis by simp
  qed
  have group: "checkGroup logServiceAndType nm defs = checkEnumValues nm defs"
    using h by (simp add: checkGroup_def)
  have returns: "checkEnumValues nm defs = Inr []" if "checkEnumValues nm defs = Inr faults" for faults
    using checkEnumValues_returns [OF that] few that by auto
  show "checkGroup logServiceAndType nm defs = Inr []
      \<or> checkGroup logServiceAndType nm defs = Inl TypeError"
  proof (cases "checkEnumValues nm defs")
    case (Inl e)
    then show ?thesis using group by (cases e) simp
  next
    case (Inr faults)
    then show ?thesis using group returns by simp
  qed
  show "checkGroup logServiceAndType nm defs = Inr []"
    if "\<forall>key \<in> set (enumSignatures defs). key \<notin> set objectPrototypeKeys"
  proof (cases "checkEnumValues nm defs")
    case (Inl e)
    then show ?thesis using checkEnumValues_throws [of nm defs e] that by auto
  next
    case (Inr faults)
    then show ?thesis using group returns by simp
  qed
qed

theorem signature_ignores_value_order_witness:
  "enumSignatures
     [\<lparr>kind = ENUM_TYPE_DEFINITION, name = ''Color'', serviceName = Some ''A'',
        values' = Some [EnumValueDefinitionNode ''RED'', EnumValueDefinitionNode ''BLUE'']\<rparr>]
     = [''BLUE,RED'']
   \<and> enumSignatures
     [\<lparr>kind = ENUM_TYPE_DEFINITION, name = ''Color'', serviceName = Some ''B'',
        values' = Some [EnumValueDefinitionNode ''BLUE'', EnumValueDefinitionNode ''RED'']\<rparr>]
     = [''BLUE,RED'']
   \<and> checkGroup (\<lambda>s t. []) ''Color''
     [\<lparr>kind = ENUM_TYPE_DEFINITION, name = ''Color'', serviceName = Some ''A'',
        values' = Some [EnumValueDefinitionNode ''RED'', EnumValueDefinitionNode ''BLUE'']\<rparr>,
      \<lparr>kind = ENUM_TYPE_DEFINITION, name = ''Color'', serviceName = Some ''B'',
        values' = Some [EnumValueDefinitionNode ''BLUE'', EnumValueDefinitionNode ''RED'']\<rparr>]
     = Inr []"
proof -
  let ?a = "\<lparr>kind = ENUM_TYPE_DEFINITION, name = ''Color'', serviceName = Some ''A'',
        values' = Some [EnumValueDefinitionNode ''RED'', EnumValueDefinitionNode ''BLUE'']\<rparr>"
  let ?b = "\<lparr>kind = ENUM_TYPE_DEFINITION, name = ''Color'', serviceName = Some ''B'',
        values' = Some [EnumValueDefinitionNode ''BLUE'', EnumValueDefinitionNode ''RED'']\<rparr>"
  let ?vs = "[EnumValueDefinitionNode ''RED'', EnumValueDefinitionNode ''BLUE'']"
  let ?ws = "[EnumValueDefinitionNode ''BLUE'', EnumValueDefinitionNode ''RED'']"
  have h1: "hasServiceAndValues ?a \<and> hasServiceAndValues ?b \<and> values' ?a = Some ?vs
      \<and> values' ?b = Some ?ws \<and> mset (map name_value ?vs) = mset (map name_value ?ws)"
    by (simp add: hasServiceAndValues_def)
  have h2: "list_all isEnumDefinition [?a, ?b]
      \<and> (\<forall>d \<in> set [?a, ?b]. \<forall>e \<in> set [?a, ?b]. \<forall>vs ws. values' d = Some vs \<and> values' e = Some ws
            \<longrightarrow> mset (map name_value vs) = mset (map name_value ws))"
    by (auto simp: isEnumDefinition_def)
  have h3: "\<forall>key \<in> set (enumSignatures [?a, ?b]). key \<notin> set objectPrototypeKeys"
    by code_simp
  have srt: "sort [''RED'', ''BLUE''] = [''BLUE'', ''RED'']"
    by code_simp
  note inst = signature_ignores_value_order
    [of ?a ?b ?vs ?ws "[?a, ?b]" "\<lambda>s t. []" "''Color''"]
  from inst h1 have "enumSignatures [?a] = [join '','' (sort (map name_value ?vs))]"
    and "enumSignatures [?b] = enumSignatures [?a]"
    by blast+
  moreover from inst h2 h3 have "checkGroup (\<lambda>s t. []) ''Color'' [?a, ?b] = Inr []"
    by blast
  ultimately show ?thesis
    by (simp add: srt)
qed

section \<open>The kind conflict report\<close>

text \<open>
  Claim C4. A group with at least one enum definition and at least one definition of
  another kind reports exactly one fault, with code \<open>ENUM_MISMATCH_TYPE\<close>; its message
  names the type and lists, in the order of the definitions, the service names of the
  enum definitions and then those of the other definitions, a definition without a
  service name being left out of either list.
\<close>

theorem kind_conflict_reports_one_fault:
  assumes "list_ex isEnumDefinition defs" and "list_ex (\<lambda>d. \<not> isEnumDefinition d) defs"
  shows "checkGroup logServiceAndType nm defs =
           Inr [\<lparr>code = ''ENUM_MISMATCH_TYPE'', impactedServices = [],
                 message = logServiceAndType (firstElement (servicesWithEnum defs)) nm
                   @ nm @ '' is an enum in ['' @ join '', '' (servicesWithEnum defs)
                   @ ''], but not in ['' @ join '', '' (servicesWithoutEnum defs) @ '']''\<rparr>]
         \<and> servicesWithEnum defs =
             [s. d \<leftarrow> defs, isEnumDefinition d, s \<leftarrow> (case serviceName d of Some s \<Rightarrow> [s] | None \<Rightarrow> [])]
         \<and> servicesWithoutEnum defs =
             [s. d \<leftarrow> defs, \<not> isEnumDefinition d, s \<leftarrow> (case serviceName d of Some s \<Rightarrow> [s] | None \<Rightarrow> [])]"
proof -
  have "\<not> list_all isEnumDefinition defs"
    using assms(2) by (auto simp: list_all_iff list_ex_iff)
  then have "checkGroup logServiceAndType nm defs =
      Inr [enumMismatchTypeFault logServiceAndType nm defs]"
    using assms(1) by (simp add: checkGroup_def)
  moreover have "servicesWithEnum defs =
      [s. d \<leftarrow> defs, isEnumDefinition d, s \<leftarrow> (case serviceName d of Some s \<Rightarrow> [s] | None \<Rightarrow> [])]"
    unfolding servicesWithEnum_def filterIsString_def
    by (induction defs) auto
  moreover have "servicesWithoutEnum defs =
      [s. d \<leftarrow> defs, \<not> isEnumDefinition d, s \<leftarrow> (case serviceName d of Some s \<Rightarrow> [s] | None \<Rightarrow> [])]"
    unfolding servicesWithoutEnum_def filterIsString_def
    by (induction defs) auto
  ultimately show ?thesis
    by (simp add: enumMismatchTypeFault_def)
qed

theorem kind_conflict_reports_one_fault_witness:
  "checkGroup (\<lambda>s t. []) ''Status''
     [\<lparr>kind = ENUM_TYPE_DEFINITION, name = ''Status'', serviceName = Some ''A'',
        values' = Some [EnumValueDefinitionNode ''ACTIVE'', EnumValueDefinitionNode ''DONE'']\<rparr>,
      \<lparr>kind = OBJECT_TYPE_DEFINITION, name = ''Status'', serviceName = Some ''B'',
        values' = None\<rparr>]
   = Inr [\<lparr>code = ''ENUM_MISMATCH_TYPE'', impactedServices = [],
           message = ''Status is an enum in [A], but not in [B]''\<rparr>]"
proof -
  let ?defs = "[\<lparr>kind = ENUM_TYPE_DEFINITION, name = ''Status'', serviceName = Some ''A'',
        values' = Some [EnumValueDefinitionNode ''ACTIVE'', EnumValueDefinitionNode ''DONE'']\<rparr>,
      \<lparr>kind = OBJECT_TYPE_DEFINITION, name = ''Status'', serviceName = Some ''B'',
        values' = None\<rparr>]"
  have h1: "list_ex isEnumDefinition ?defs" by (simp add: isEnumDefinition_def)
  have h2: "list_ex (\<lambda>d. \<not> isEnumDefinition d) ?defs" by (simp add: isEnumDefinition_def)
  have w: "servicesWithEnum ?defs = [''A'']" "servicesWithoutEnum ?defs = [''B'']"
    by (simp_all add: servicesWithEnum_def servicesWithoutEnum_def filterIsString_def
        isEnumDefinition_def)
  show ?thesis
    using kind_conflict_reports_one_fault [OF h1 h2, of "\<lambda>s t. []" "''Status''"]
    by (simp add: w)
qed

text \<open>
  Claim C9. There is an input, a group of mixed kinds whose only enum definition has no
  service name, for which \<^verbatim>\<open>servicesWithEnum\<close> is empty and the fault is still built:
  \<^verbatim>\<open>logServiceAndType\<close> receives the undefined first element of the empty list.
\<close>

theorem empty_servicesWithEnum_head_access:
  "servicesWithEnum
     [\<lparr>kind = ENUM_TYPE_DEFINITION, name = ''Status'', serviceName = None,
        values' = Some [EnumValueDefinitionNode ''ACTIVE'', EnumValueDefinitionNode ''DONE'']\<rparr>,
      \<lparr>kind = OBJECT_TYPE_DEFINITION, name = ''Status'', serviceName = Some ''B'',
        values' = None\<rparr>] = []
   \<and> MatchingEnums logServiceAndType
     [\<lparr>kind = ENUM_TYPE_DEFINITION, name = ''Status'', serviceName = None,
        values' = Some [EnumValueDefinitionNode ''ACTIVE'', EnumValueDefinitionNode ''DONE'']\<rparr>,
      \<lparr>kind = OBJECT_TYPE_DEFINITION, name = ''Status'', serviceName = Some ''B'',
        values' = None\<rparr>]
   = ([\<lparr>code = ''ENUM_MISMATCH_TYPE'', impactedServices = [],
         message = logServiceAndType None ''Status''
           @ ''Status is an enum in [], but not in [B]''\<rparr>], None)"
  by code_simp

section \<open>Definitions without a service name or without values\<close>

text \<open>
  Claim C8. A definition without a service name or without values takes no part in the
  signature computation and does not change the outcome of the check of its group: the
  elements of \<^verbatim>\<open>simpleEnumDefs\<close>, the signatures and the result of the check are those
  of the group without it, and a group of such definitions only is checked with no
  group and no fault. An enum definition without a service name is in neither service
  list of the kind conflict report, and next to another enum definition it leaves the
  whole result of its group unchanged. Every service in a signature group is the service
  name of a definition of the group that has values.
\<close>

theorem malformed_fragments_are_skipped:
  "((serviceName d = None \<or> values' d = None) \<longrightarrow>
       simpleEnumDefs (xs @ d # ys) = simpleEnumDefs (xs @ ys)
     \<and> enumSignatures (xs @ d # ys) = enumSignatures (xs @ ys)
     \<and> checkEnumValues nm (xs @ d # ys) = checkEnumValues nm (xs @ ys))
   \<and> (isEnumDefinition d \<and> serviceName d = None \<longrightarrow>
       servicesWithEnum (xs @ d # ys) = servicesWithEnum (xs @ ys)
     \<and> servicesWithoutEnum (xs @ d # ys) = servicesWithoutEnum (xs @ ys)
     \<and> (list_ex isEnumDefinition (xs @ ys) \<longrightarrow>
          checkGroup logServiceAndType nm (xs @ d # ys)
            = checkGroup logServiceAndType nm (xs @ ys)))
   \<and> (matchingEnumGroups defs = Inr groups \<longrightarrow>
        (\<forall>g \<in> set (objectValues groups). \<forall>e \<in> set g.
           \<exists>f \<in> set defs. serviceName f = Some (svc_serviceName e) \<and> values' f \<noteq> None))
   \<and> ((\<forall>f \<in> set defs. serviceName f = None \<or> values' f = None) \<longrightarrow>
        matchingEnumGroups defs = Inr [] \<and> checkEnumValues nm defs = Inr [])"
proof (intro conjI impI ballI)
  assume h: "serviceName d = None \<or> values' d = None"
  then have skip: "\<not> hasServiceAndValues d"
    by (auto simp: hasServiceAndValues_def split: option.splits)
  show "simpleEnumDefs (xs @ d # ys) = simpleEnumDefs (xs @ ys)"
    using simpleEnumDefs_skips [OF skip, of ys] simpleEnumDefs_append [of xs "d # ys"]
      simpleEnumDefs_append [of xs ys]
    by simp
  then show "enumSignatures (xs @ d # ys) = enumSignatures (xs @ ys)"
    by (simp add: enumSignatures_def)
  show "checkEnumValues nm (xs @ d # ys) = checkEnumValues nm (xs @ ys)"
    by (rule checkEnumValues_skips [OF skip])
next
  assume h: "isEnumDefinition d \<and> serviceName d = None"
  then have skip: "\<not> hasServiceAndValues d"
    by (simp add: hasServiceAndValues_def)
  show "servicesWithEnum (xs @ d # ys) = servicesWithEnum (xs @ ys)"
    using h by (simp add: servicesWithEnum_skips)
  show "servicesWithoutEnum (xs @ d # ys) = servicesWithoutEnum (xs @ ys)"
    using h by (simp add: servicesWithoutEnum_skips)
  show "checkGroup logServiceAndType nm (xs @ d # ys) = checkGroup logServiceAndType nm (xs @ ys)"
    if some: "list_ex isEnumDefinition (xs @ ys)"
  proof -
    have all: "list_all isEnumDefinition (xs @ d # ys) = list_all isEnumDefinition (xs @ ys)"
      using h by simp
    have ex: "list_ex isEnumDefinition (xs @ d # ys)"
      using h by simp
    have fault: "enumMismatchTypeFault logServiceAndType nm (xs @ d # ys)
        = enumMismatchTypeFault logServiceAndType nm (xs @ ys)"
      using h by (simp add: enumMismatchTypeFault_def servicesWithEnum_skips
          servicesWithoutEnum_skips)
    show ?thesis
      unfolding checkGroup_def
      by (simp only: all ex some fault checkEnumValues_skips [OF skip] if_True)
  qed
next
  fix g e
  assume "matchingEnumGroups defs = Inr groups" "g \<in> set (objectValues groups)" "e \<in> set g"
  then show "\<exists>f \<in> set defs. serviceName f = Some (svc_serviceName e) \<and> values' f \<noteq> None"
    by (rule matchingEnumGroups_origin)
next
  assume h: "\<forall>f \<in> set defs. serviceName f = None \<or> values' f = None"
  then have "filter hasServiceAndValues defs = []"
    by (auto simp: hasServiceAndValues_def filter_empty_conv split: option.splits)
  then have none: "simpleEnumDefs defs = []"
    using arg_cong [OF simpleEnumDefs_services [of defs], of length]
    by (simp add: filterIsString_def)
  then show "matchingEnumGroups defs = Inr []"
    by (simp add: matchingEnumGroups_def sortValues_def)
  then show "checkEnumValues nm defs = Inr []"
    by (simp add: checkEnumValues_def objectKeys_def objectEntries_def)
qed

theorem malformed_fragments_are_skipped_witness:
  "simpleEnumDefs
     [\<lparr>kind = ENUM_TYPE_DEFINITION, name = ''Color'', serviceName = Some ''A'',
        values' = Some [EnumValueDefinitionNode ''RED'']\<rparr>,
      \<lparr>kind = ENUM_TYPE_DEFINITION, name = ''Color'', serviceName = None,
        values' = Some [EnumValueDefinitionNode ''GREEN'']\<rparr>,
      \<lparr>kind = ENUM_TYPE_DEFINITION, name = ''Color'', serviceName = Some ''B'',
        values' = Some [EnumValueDefinitionNode ''BLUE'']\<rparr>]
   = [\<lparr>def_serviceName = ''A'', def_values = [''RED''],
        def_nodes = [EnumValueDefinitionNode ''RED'']\<rparr>,
      \<lparr>def_serviceName = ''B'', def_values = [''BLUE''],
        def_nodes = [EnumValueDefinitionNode ''BLUE'']\<rparr>]
   \<and> checkEnumValues ''Color''
     [\<lparr>kind = ENUM_TYPE_DEFINITION, name = ''Color'', serviceName = Some ''A'',
        values' = Some [EnumValueDefinitionNode ''RED'']\<rparr>,
      \<lparr>kind = ENUM_TYPE_DEFINITION, name = ''Color'', serviceName = None,
        values' = Some [EnumValueDefinitionNode ''GREEN'']\<rparr>,
      \<lparr>kind = ENUM_TYPE_DEFINITION, name = ''Color'', serviceName = Some ''B'',
        values' = Some [EnumValueDefinitionNode ''BLUE'']\<rparr>]
   = checkEnumValues ''Color''
     [\<lparr>kind = ENUM_TYPE_DEFINITION, name = ''Color'', serviceName = Some ''A'',
        values' = Some [EnumValueDefinitionNode ''RED'']\<rparr>,
      \<lparr>kind = ENUM_TYPE_DEFINITION, name = ''Color'', serviceName = Some ''B'',
        values' = Some [EnumValueDefinitionNode ''BLUE'']\<rparr>]
   \<and> servicesWithEnum
     [\<lparr>kind = ENUM_TYPE_DEFINITION, name = ''Color'', serviceName = Some ''A'',
        values' = Some [EnumValueDefinitionNode ''RED'']\<rparr>,
      \<lparr>kind = ENUM_TYPE_DEFINITION, name = ''Color'', serviceName = None,
        values' = Some [EnumValueDefinitionNode ''GREEN'']\<rparr>,
      \<lparr>kind = ENUM_TYPE_DEFINITION, name = ''Color'', serviceName = Some ''B'',
        values' = Some [EnumValueDefinitionNode ''BLUE'']\<rparr>]
   = [''A'', ''B'']
   \<and> checkGroup (\<lambda>s t. []) ''Color''
     [\<lparr>kind = ENUM_TYPE_DEFINITION, name = ''Color'', serviceName = Some ''A'',
        values' = Some [EnumValueDefinitionNode ''RED'']\<rparr>,
      \<lparr>kind = ENUM_TYPE_DEFINITION, name = ''Color'', serviceName = None,
        values' = Some [EnumValueDefinitionNode ''GREEN'']\<rparr>,
      \<lparr>kind = ENUM_TYPE_DEFINITION, name = ''Color'', serviceName = Some ''B'',
        values' = Some [EnumValueDefinitionNode ''BLUE'']\<rparr>]
   = checkGroup (\<lambda>s t. []) ''Color''
     [\<lparr>kind = ENUM_TYPE_DEFINITION, name = ''Color'', serviceName = Some ''A'',
        values' = Some [EnumValueDefinitionNode ''RED'']\<rparr>,
      \<lparr>kind = ENUM_TYPE_DEFINITION, name = ''Color'', serviceName = Some ''B'',
        values' = Some [EnumValueDefinitionNode ''BLUE'']\<rparr>]
   \<and> (\<exists>f \<in> set
       [\<lparr>kind = ENUM_TYPE_DEFINITION, name = ''Color'', serviceName = Some ''A'',
          values' = Some [EnumValueDefinitionNode ''RED'']\<rparr>,
        \<lparr>kind = ENUM_TYPE_DEFINITION, name = ''Color'', serviceName = None,
          values' = Some [EnumValueDefinitionNode ''GREEN'']\<rparr>,
        \<lparr>kind = ENUM_TYPE_DEFINITION, name = ''Color'', serviceName = Some ''B'',
          values' = Some [EnumValueDefinitionNode ''BLUE'']\<rparr>].
       serviceName f = Some ''B'' \<and> values' f \<noteq> None)
   \<and> matchingEnumGroups
     [\<lparr>kind = ENUM_TYPE_DEFINITION, name = ''Color'', serviceName = None,
        values' = Some [EnumValueDefinitionNode ''GREEN'']\<rparr>]
   = Inr []"
proof -
  let ?a = "\<lparr>kind = ENUM_TYPE_DEFINITION, name = ''Color'', serviceName = Some ''A'',
        values' = Some [EnumValueDefinitionNode ''RED'']\<rparr>"
  let ?d = "\<lparr>kind = ENUM_TYPE_DEFINITION, name = ''Color'', serviceName = None,
        values' = Some [EnumValueDefinitionNode ''GREEN'']\<rparr>"
  let ?b = "\<lparr>kind = ENUM_TYPE_DEFINITION, name = ''Color'', serviceName = Some ''B'',
        values' = Some [EnumValueDefinitionNode ''BLUE'']\<rparr>"
  let ?svcA = "\<lparr>svc_serviceName = ''A'', svc_nodes = [EnumValueDefinitionNode ''RED'']\<rparr>"
  let ?svcB = "\<lparr>svc_serviceName = ''B'', svc_nodes = [EnumValueDefinitionNode ''BLUE'']\<rparr>"
  let ?groups = "[(''RED'', [?svcA]), (''BLUE'', [?svcB])]"
  have h1: "serviceName ?d = None \<or> values' ?d = None" by simp
  have h2: "isEnumDefinition ?d \<and> serviceName ?d = None" by (simp add: isEnumDefinition_def)
  have h3: "list_ex isEnumDefinition ([?a] @ [?b])" by (simp add: isEnumDefinition_def)
  have h4: "matchingEnumGroups [?a, ?d, ?b] = Inr ?groups" by code_simp
  have h5: "\<forall>f \<in> set [?d]. serviceName f = None \<or> values' f = None" by simp
  have member: "[?svcB] \<in> set (objectValues ?groups)" by code_simp
  note first = malformed_fragments_are_skipped
    [of ?d "[?a]" "[?b]" "''Color''" "\<lambda>s t. []" "[?a, ?d, ?b]" ?groups]
  note second = malformed_fragments_are_skipped
    [of ?d "[?a]" "[?b]" "''Color''" "\<lambda>s t. []" "[?d]" "[]"]
  from first h1 have c1: "simpleEnumDefs ([?a] @ ?d # [?b]) = simpleEnumDefs ([?a] @ [?b])"
    and c2: "checkEnumValues ''Color'' ([?a] @ ?d # [?b]) = checkEnumValues ''Color'' ([?a] @ [?b])"
    by blast+
  from first h2 h3 have c3: "servicesWithEnum ([?a] @ ?d # [?b]) = servicesWithEnum ([?a] @ [?b])"
    and c4: "checkGroup (\<lambda>s t. []) ''Color'' ([?a] @ ?d # [?b])
        = checkGroup (\<lambda>s t. []) ''Color'' ([?a] @ [?b])"
    by blast+
  from first h4 member have c5:
    "\<exists>f \<in> set [?a, ?d, ?b]. serviceName f = Some (svc_serviceName ?svcB) \<and> values' f \<noteq> None"
    by (meson list.set_intros(1))
  from second h5 have c6: "matchingEnumGroups [?d] = Inr []"
    by blast
  have e1: "simpleEnumDefs [?a, ?b]
      = [\<lparr>def_serviceName = ''A'', def_values = [''RED''],
           def_nodes = [EnumValueDefinitionNode ''RED'']\<rparr>,
         \<lparr>def_serviceName = ''B'', def_values = [''BLUE''],
           def_nodes = [EnumValueDefinitionNode ''BLUE'']\<rparr>]"
    by simp
  have e3: "servicesWithEnum [?a, ?b] = [''A'', ''B'']"
    by (simp add: servicesWithEnum_def filterIsString_def isEnumDefinition_def)
  have app: "[?a] @ ?d # [?b] = [?a, ?d, ?b]" "[?a] @ [?b] = [?a, ?b]"
    by simp_all
  show ?thesis
    using c1 c2 c3 c4 c5 c6 unfolding e1 e3 app
    by (intro conjI) simp_all
qed

section \<open>The signature groups of a reported mismatch\<close>

text \<open>
  Claim C5, as stated, at a concrete input. Three services declare the enum \<open>Color\<close>:
  \<open>A\<close>, \<open>B\<close> and \<open>C\<close>; the definition of \<open>C\<close> has no \<^verbatim>\<open>values\<close>. The rule reports
  \<open>ENUM_MISMATCH\<close>, the services of its signature groups are \<open>A\<close> and \<open>B\<close>, and
  the services that contribute an enum definition of \<open>Color\<close> are \<open>A\<close>, \<open>B\<close> and \<open>C\<close>:
  the two sets differ.
\<close>

theorem signature_groups_miss_service_counterexample:
  "MatchingEnums (\<lambda>s t. [])
     [\<lparr>kind = ENUM_TYPE_DEFINITION, name = ''Color'', serviceName = Some ''A'',
        values' = Some [EnumValueDefinitionNode ''RED'']\<rparr>,
      \<lparr>kind = ENUM_TYPE_DEFINITION, name = ''Color'', serviceName = Some ''B'',
        values' = Some [EnumValueDefinitionNode ''BLUE'']\<rparr>,
      \<lparr>kind = ENUM_TYPE_DEFINITION, name = ''Color'', serviceName = Some ''C'',
        values' = None\<rparr>]
   = ([\<lparr>code = ''ENUM_MISMATCH'', impactedServices = [],
         message = ''The `Color` enum does not have identical values in all services. Groups of services with identical values are: [[object Object]], [[object Object]]''\<rparr>],
      None)
   \<and> matchingEnumGroups
     [\<lparr>kind = ENUM_TYPE_DEFINITION, name = ''Color'', serviceName = Some ''A'',
        values' = Some [EnumValueDefinitionNode ''RED'']\<rparr>,
      \<lparr>kind = ENUM_TYPE_DEFINITION, name = ''Color'', serviceName = Some ''B'',
        values' = Some [EnumValueDefinitionNode ''BLUE'']\<rparr>,
      \<lparr>kind = ENUM_TYPE_DEFINITION, name = ''Color'', serviceName = Some ''C'',
        values' = None\<rparr>]
   = Inr [(''RED'', [\<lparr>svc_serviceName = ''A'', svc_nodes = [EnumValueDefinitionNode ''RED'']\<rparr>]),
          (''BLUE'', [\<lparr>svc_serviceName = ''B'', svc_nodes = [EnumValueDefinitionNode ''BLUE'']\<rparr>])]
   \<and> map svc_serviceName (concat (objectValues
         [(''RED'', [\<lparr>svc_serviceName = ''A'', svc_nodes = [EnumValueDefinitionNode ''RED'']\<rparr>]),
          (''BLUE'', [\<lparr>svc_serviceName = ''B'', svc_nodes = [EnumValueDefinitionNode ''BLUE'']\<rparr>])]))
     = [''A'', ''B'']
   \<and> servicesWithEnum
     [\<lparr>kind = ENUM_TYPE_DEFINITION, name = ''Color'', serviceName = Some ''A'',
        values' = Some [EnumValueDefinitionNode ''RED'']\<rparr>,
      \<lparr>kind = ENUM_TYPE_DEFINITION, name = ''Color'', serviceName = Some ''B'',
        values' = Some [EnumValueDefinitionNode ''BLUE'']\<rparr>,
      \<lparr>kind = ENUM_TYPE_DEFINITION, name = ''Color'', serviceName = Some ''C'',
        values' = None\<rparr>]
     = [''A'', ''B'', ''C'']
   \<and> set [''A'', ''B''] \<noteq> set [''A'', ''B'', ''C'']"
  by code_simp

text \<open>
  Claim C5, amended. Every \<open>ENUM_MISMATCH\<close> fault that the rule reports belongs to a
  type name of the input, and the services of all its signature groups together are
  exactly the service names of the definitions of that name that pass the guard of
  line 55: those with a non-empty service name and with values.
\<close>

theorem signature_groups_cover_services:
  assumes "fault \<in> set (fst (MatchingEnums logServiceAndType definitions))"
    and "code fault = ''ENUM_MISMATCH''"
  shows "\<exists>nm groups. nm \<in> set (map name definitions)
           \<and> matchingEnumGroups (filter (\<lambda>d. name d = nm) definitions) = Inr groups
           \<and> fault = \<lparr>code = ''ENUM_MISMATCH'', impactedServices = [],
                       message = enumMismatchMessage nm groups\<rparr>
           \<and> set (map svc_serviceName (concat (objectValues groups)))
             = set (filterIsString (map serviceName
                 (filter hasServiceAndValues (filter (\<lambda>d. name d = nm) definitions))))"
proof -
  from MatchingEnums_reported [OF assms(1)] obtain nm faults where
    nm: "nm \<in> set (map name definitions)"
    and check: "checkGroup logServiceAndType nm (filter (\<lambda>d. name d = nm) definitions) = Inr faults"
    and mem: "fault \<in> set faults"
    by blast
  from checkGroup_mismatch_groups [OF check mem assms(2)] nm show ?thesis
    by blast
qed

theorem signature_groups_cover_services_witness:
  "\<exists>groups. matchingEnumGroups
     [\<lparr>kind = ENUM_TYPE_DEFINITION, name = ''Color'', serviceName = Some ''A'',
        values' = Some [EnumValueDefinitionNode ''RED'']\<rparr>,
      \<lparr>kind = ENUM_TYPE_DEFINITION, name = ''Color'', serviceName = Some ''B'',
        values' = Some [EnumValueDefinitionNode ''BLUE'']\<rparr>,
      \<lparr>kind = ENUM_TYPE_DEFINITION, name = ''Color'', serviceName = Some ''C'',
        values' = None\<rparr>] = Inr groups
     \<and> set (map svc_serviceName (concat (objectValues groups))) = set [''A'', ''B'']"
proof -
  let ?defs = "[\<lparr>kind = ENUM_TYPE_DEFINITION, name = ''Color'', serviceName = Some ''A'',
        values' = Some [EnumValueDefinitionNode ''RED'']\<rparr>,
      \<lparr>kind = ENUM_TYPE_DEFINITION, name = ''Color'', serviceName = Some ''B'',
        values' = Some [EnumValueDefinitionNode ''BLUE'']\<rparr>,
      \<lparr>kind = ENUM_TYPE_DEFINITION, name = ''Color'', serviceName = Some ''C'',
        values' = None\<rparr>]"
  let ?fault = "\<lparr>code = ''ENUM_MISMATCH'', impactedServices = [],
     message = ''The `Color` enum does not have identical values in all services. Groups of services with identical values are: [[object Object]], [[object Object]]''\<rparr>"
  have run: "MatchingEnums (\<lambda>s t. []) ?defs = ([?fault], None)" by code_simp
  have h1: "?fault \<in> set (fst (MatchingEnums (\<lambda>s t. []) ?defs))"
    unfolding run by simp
  have h2: "code ?fault = ''ENUM_MISMATCH''" by simp
  from signature_groups_cover_services [OF h1 h2] obtain nm groups where
    nm: "nm \<in> set (map name ?defs)"
    and groups: "matchingEnumGroups (filter (\<lambda>d. name d = nm) ?defs) = Inr groups"
    and cover: "set (map svc_serviceName (concat (objectValues groups)))
        = set (filterIsString (map serviceName
            (filter hasServiceAndValues (filter (\<lambda>d. name d = nm) ?defs))))"
    by blast
  from nm have color: "nm = ''Color''" by simp
  have same: "filter (\<lambda>d. name d = ''Color'') ?defs = ?defs" by simp
  have e: "filterIsString (map serviceName (filter hasServiceAndValues ?defs)) = [''A'', ''B'']"
    by (simp add: filterIsString_def hasServiceAndValues_def)
  from groups cover show ?thesis
    unfolding color same e by blast
qed

section \<open>Inputs on which the rule departs from its description\<close>

text \<open>
  Claim C1 at a concrete input. The group \<open>Method\<close> holds two enum definitions with the
  distinct signatures \<open>toString\<close> and \<open>print,valueOf\<close>. Line 78 reads
  \<^verbatim>\<open>matchingEnumGroups["toString"]\<close>, finds the method inherited from
  \<^verbatim>\<open>Object.prototype\<close>, and line 79 throws: the check of the group ends with a
  \<^verbatim>\<open>TypeError\<close> and reports no fault.
\<close>

theorem enum_check_throws_on_prototype_key:
  "enumSignatures
     [\<lparr>kind = ENUM_TYPE_DEFINITION, name = ''Method'', serviceName = Some ''A'',
        values' = Some [EnumValueDefinitionNode ''toString'']\<rparr>,
      \<lparr>kind = ENUM_TYPE_DEFINITION, name = ''Method'', serviceName = Some ''B'',
        values' = Some [EnumValueDefinitionNode ''valueOf'', EnumValueDefinitionNode ''print'']\<rparr>]
     = [''toString'', ''print,valueOf'']
   \<and> checkGroup logServiceAndType ''Method''
     [\<lparr>kind = ENUM_TYPE_DEFINITION, name = ''Method'', serviceName = Some ''A'',
        values' = Some [EnumValueDefinitionNode ''toString'']\<rparr>,
      \<lparr>kind = ENUM_TYPE_DEFINITION, name = ''Method'', serviceName = Some ''B'',
        values' = Some [EnumValueDefinitionNode ''valueOf'', EnumValueDefinitionNode ''print'']\<rparr>]
     = Inl TypeError"
  by code_simp

text \<open>
  Claim C2 at a concrete input. For a definition named \<open>constructor\<close>, line 31 reads
  \<^verbatim>\<open>typeToDefinitionsMap["constructor"]\<close>, finds the function inherited from
  \<^verbatim>\<open>Object.prototype\<close>, and line 32 throws: no mapping is produced and the rule ends
  with a \<^verbatim>\<open>TypeError\<close>.
\<close>

theorem grouping_throws_on_prototype_name:
  "definitionsByName
     [\<lparr>kind = OBJECT_TYPE_DEFINITION, name = ''Query'', serviceName = Some ''A'',
        values' = None\<rparr>,
      \<lparr>kind = OBJECT_TYPE_DEFINITION, name = ''constructor'', serviceName = Some ''A'',
        values' = None\<rparr>]
     = Inl TypeError
   \<and> MatchingEnums logServiceAndType
     [\<lparr>kind = OBJECT_TYPE_DEFINITION, name = ''Query'', serviceName = Some ''A'',
        values' = None\<rparr>,
      \<lparr>kind = OBJECT_TYPE_DEFINITION, name = ''constructor'', serviceName = Some ''A'',
        values' = None\<rparr>]
     = ([], Some TypeError)"
  by code_simp

text \<open>
  Claim C6 at a concrete input. The services \<open>A\<close> and \<open>B\<close> declare \<open>Color\<close> with the
  values \<open>RED\<close> and \<open>BLUE\<close>, the service \<open>C\<close> with \<open>RED\<close> and \<open>GREEN\<close>. The message
  of the reported fault lists each group in brackets, but its elements are the objects
  \<^verbatim>\<open>{ serviceName, nodes }\<close>, printed as \<open>[object Object]\<close>, not the service names.
\<close>

theorem enum_mismatch_message_prints_objects:
  "MatchingEnums logServiceAndType
     [\<lparr>kind = ENUM_TYPE_DEFINITION, name = ''Color'', serviceName = Some ''A'',
        values' = Some [EnumValueDefinitionNode ''RED'', EnumValueDefinitionNode ''BLUE'']\<rparr>,
      \<lparr>kind = ENUM_TYPE_DEFINITION, name = ''Color'', serviceName = Some ''B'',
        values' = Some [EnumValueDefinitionNode ''BLUE'', EnumValueDefinitionNode ''RED'']\<rparr>,
      \<lparr>kind = ENUM_TYPE_DEFINITION, name = ''Color'', serviceName = Some ''C'',
        values' = Some [EnumValueDefinitionNode ''RED'', EnumValueDefinitionNode ''GREEN'']\<rparr>]
   = ([\<lparr>code = ''ENUM_MISMATCH'', impactedServices = [],
         message = ''The `Color` enum does not have identical values in all services. Groups of services with identical values are: [[object Object], [object Object]], [[object Object]]''\<rparr>],
      None)"
  by code_simp

text \<open>
  Claim C7 at a concrete input. The services \<open>A\<close> and \<open>C\<close> declare \<open>Color\<close> with
  different values; one \<open>ENUM_MISMATCH\<close> fault is reported, its signature groups hold
  \<open>A\<close> and \<open>C\<close>, and its \<^verbatim>\<open>impactedServices\<close> is the empty object of line 86.
\<close>

theorem enum_mismatch_impactedServices_empty:
  "map impactedServices (fst (MatchingEnums logServiceAndType
     [\<lparr>kind = ENUM_TYPE_DEFINITION, name = ''Color'', serviceName = Some ''A'',
        values' = Some [EnumValueDefinitionNode ''RED'', EnumValueDefinitionNode ''BLUE'']\<rparr>,
      \<lparr>kind = ENUM_TYPE_DEFINITION, name = ''Color'', serviceName = Some ''C'',
        values' = Some [EnumValueDefinitionNode ''RED'', EnumValueDefinitionNode ''GREEN'']\<rparr>]))
   = [[]]
   \<and> map code (fst (MatchingEnums logServiceAndType
     [\<lparr>kind = ENUM_TYPE_DEFINITION, name = ''Color'', serviceName = Some ''A'',
        values' = Some [EnumValueDefinitionNode ''RED'', EnumValueDefinitionNode ''BLUE'']\<rparr>,
      \<lparr>kind = ENUM_TYPE_DEFINITION, name = ''Color'', serviceName = Some ''C'',
        values' = Some [EnumValueDefinitionNode ''RED'', EnumValueDefinitionNode ''GREEN'']\<rparr>]))
   = [''ENUM_MISMATCH'']
   \<and> matchingEnumGroups
     [\<lparr>kind = ENUM_TYPE_DEFINITION, name = ''Color'', serviceName = Some ''A'',
        values' = Some [EnumValueDefinitionNode ''RED'', EnumValueDefinitionNode ''BLUE'']\<rparr>,
      \<lparr>kind = ENUM_TYPE_DEFINITION, name = ''Color'', serviceName = Some ''C'',
        values' = Some [EnumValueDefinitionNode ''RED'', EnumValueDefinitionNode ''GREEN'']\<rparr>]
   = Inr [(''BLUE,RED'', [\<lparr>svc_serviceName = ''A'',
             svc_nodes = [EnumValueDefinitionNode ''RED'', EnumValueDefinitionNode ''BLUE'']\<rparr>]),
          (''GREEN,RED'', [\<lparr>svc_serviceName = ''C'',
             svc_nodes = [EnumValueDefinitionNode ''RED'', EnumValueDefinitionNode ''GREEN'']\<rparr>])]"
  by code_simp

text \<open>
  Claim C10 at a concrete input with three inconsistent groups, in this order:
  \<open>Status\<close> (an enum in \<open>A\<close>, an object type in \<open>B\<close>), \<open>Method\<close> (enums with the
  signatures \<open>toString\<close> and \<open>print\<close>) and \<open>Kind\<close> (an enum in \<open>A\<close>, a scalar in \<open>B\<close>).
  The fault of \<open>Status\<close> is reported; the check of \<open>Method\<close> throws at line 79, which
  ends the loop: \<open>Method\<close> contributes no fault and \<open>Kind\<close> is never scanned.
\<close>

theorem run_aborts_at_throwing_group:
  "MatchingEnums logServiceAndType
     [\<lparr>kind = ENUM_TYPE_DEFINITION, name = ''Status'', serviceName = Some ''A'',
        values' = Some [EnumValueDefinitionNode ''ACTIVE'']\<rparr>,
      \<lparr>kind = OBJECT_TYPE_DEFINITION, name = ''Status'', serviceName = Some ''B'',
        values' = None\<rparr>,
      \<lparr>kind = ENUM_TYPE_DEFINITION, name = ''Method'', serviceName = Some ''A'',
        values' = Some [EnumValueDefinitionNode ''toString'']\<rparr>,
      \<lparr>kind = ENUM_TYPE_DEFINITION, name = ''Method'', serviceName = Some ''B'',
        values' = Some [EnumValueDefinitionNode ''print'']\<rparr>,
      \<lparr>kind = ENUM_TYPE_DEFINITION, name = ''Kind'', serviceName = Some ''A'',
        values' = Some [EnumValueDefinitionNode ''X'']\<rparr>,
      \<lparr>kind = SCALAR_TYPE_DEFINITION, name = ''Kind'', serviceName = Some ''B'',
        values' = None\<rparr>]
   = ([\<lparr>code = ''ENUM_MISMATCH_TYPE'', impactedServices = [],
         message = logServiceAndType (Some ''A'') ''Status''
           @ ''Status is an enum in [A], but not in [B]''\<rparr>],
      Some TypeError)"
  by code_simp

end
